theory Spec2Isabelle
  imports Main "HOL-Library.Word"
begin

section \<open>Values, errors and buffers\<close>

text \<open>
  The library decodes a Node \<open>Buffer\<close> (a sequence of bytes) into a JavaScript object.
  Values are the primitives of \<open>payload_spec.ts\<close> (\<open>number | string | boolean\<close>, and
  \<open>null\<close> for derive callbacks); \<open>PUndefined\<close> is what reading a missing property gives.
  Numbers are restricted to integers. A thrown exception is \<open>Inl\<close> of an \<open>error\<close>:
  an \<open>Error\<close> or a \<open>ParsingError\<close> with its message, or the \<open>RangeError\<close> of a
  read that Node's \<open>Buffer\<close> refuses.
\<close>

datatype Mode = BE | LE

datatype primitive = PNum int | PStr string | PBool bool | PNull | PUndefined

datatype error = Error string | ParsingError string | RangeError

type_synonym Buffer = "8 word list"

type_synonym vars = "string \<rightharpoonup> primitive"

text \<open>JavaScript's \<open>%\<close> truncates: the remainder takes the sign of the dividend.\<close>

definition js_rem :: "int \<Rightarrow> int \<Rightarrow> int" where
  "js_rem a b = sgn a * (\<bar>a\<bar> mod \<bar>b\<bar>)"

text \<open>Decimal rendering of integers, as string interpolation and property keys use it.\<close>

fun digits :: "nat \<Rightarrow> string" where
  "digits n = (if n < 10 then [''0123456789'' ! n]
               else digits (n div 10) @ [''0123456789'' ! (n mod 10)])"

declare digits.simps [simp del]

definition show_int :: "int \<Rightarrow> string" where
  "show_int i = (if i < 0 then CHR ''-'' # digits (nat (- i)) else digits (nat i))"

fun toString :: "primitive \<Rightarrow> string" where
  "toString (PNum i) = show_int i"
| "toString (PStr s) = s"
| "toString (PBool b) = (if b then ''true'' else ''false'')"
| "toString PNull = ''null''"
| "toString PUndefined = ''undefined''"

text \<open>
  \<open>buffer.slice(start, end)\<close> of Node: an index below 0 counts from the end, both are
  clamped to the buffer, \<open>end\<close> defaults to the length, and the view is empty when the
  end is not after the start.
\<close>

definition slice :: "Buffer \<Rightarrow> int \<Rightarrow> int option \<Rightarrow> Buffer" where
  "slice buf start stop =
     (let len = int (length buf);
          clamp = (\<lambda>i. if i < 0 then max 0 (len + i) else min i len);
          s = clamp start;
          e = (case stop of None \<Rightarrow> len | Some x \<Rightarrow> clamp x)
      in take (nat (e - s)) (drop (nat s) buf))"

section \<open>Instructions of \<open>payload_spec.ts\<close>\<close>

text \<open>
  Modelled from the spec: the field types (\<open>UInt8\<close>, \<open>Bits3\<close>, \<open>Text\<close>, ...) and \<open>Literal\<close>
  live in \<open>types.ts\<close>, which is not part of the sources. Following section 4.2 of the
  specification a type is a \<open>decoder\<close>: given the buffer, the byte and bit offset and the
  active endianness it fails or yields the decoded value and the number of bits consumed.
\<close>

type_synonym decoder = "Buffer \<Rightarrow> int \<Rightarrow> int \<Rightarrow> Mode \<Rightarrow> error + primitive \<times> int"

text \<open>
  One constructor per instruction class. \<open>Field name type then shouldBe size\<close> is an
  instance of a field type with its options; \<open>size\<close> is the value of its \<open>size\<close> property,
  set by the last \<open>execute\<close>. \<open>PadInstruction\<close> carries its private \<open>_size\<close>.
  \<open>IfInstruction predicate mode instructions\<close> holds the other \<open>PayloadSpec\<close> as its
  constructor mode and its instruction array.
\<close>

datatype Instruction =
    Field string decoder "(primitive \<Rightarrow> primitive) option" "primitive option" int
  | Literal string primitive
  | Ignorable Instruction
  | SkipInstruction int
  | EndiannessInstruction Mode
  | PadInstruction int
  | DeriveInstruction string "vars \<Rightarrow> primitive"
  | IfInstruction "vars \<Rightarrow> bool" Mode "Instruction list"

type_synonym PayloadSpec = "Mode \<times> Instruction list"

record ReaderState =
  result :: vars
  storedVars :: vars
  offset_bytes :: int
  offset_bits :: int
  mode :: Mode

record BufferReader =
  byteOffset :: int
  bitOffset :: int
  r_mode :: Mode

fun inst_name :: "Instruction \<Rightarrow> string option" where
  "inst_name (Field n dec thn exp sz) = Some n"
| "inst_name (Literal n v) = Some n"
| "inst_name (Ignorable inst) = inst_name inst"
| "inst_name (SkipInstruction b) = None"
| "inst_name (EndiannessInstruction m) = None"
| "inst_name (PadInstruction sz) = None"
| "inst_name (DeriveInstruction n cb) = Some n"
| "inst_name (IfInstruction p m is) = None"

fun inst_size :: "Instruction \<Rightarrow> int" where
  "inst_size (Field n dec thn exp sz) = sz"
| "inst_size (Literal n v) = 0"
| "inst_size (Ignorable inst) = inst_size inst"
| "inst_size (SkipInstruction b) = b * 8"
| "inst_size (EndiannessInstruction m) = 0"
| "inst_size (PadInstruction sz) = sz"
| "inst_size (DeriveInstruction n cb) = 0"
| "inst_size (IfInstruction p m is) = 0"

text \<open>The object spread \<open>{ ...readerState.result, ...readerState.storedVars }\<close>.\<close>

definition combinedVars :: "ReaderState \<Rightarrow> vars" where
  "combinedVars rs = result rs ++ storedVars rs"

definition BufferReader_addOffset :: "BufferReader \<Rightarrow> int \<Rightarrow> BufferReader" where
  "BufferReader_addOffset rd bitSize =
     (let currentOffsetInBits = byteOffset rd * 8 + bitOffset rd;
          updatedOffsetInBits = currentOffsetInBits + bitSize
      in rd\<lparr>byteOffset := updatedOffsetInBits div 8,
             bitOffset := js_rem updatedOffsetInBits 8\<rparr>)"

text \<open>
  Modelled from the spec: what a field instance does with a decoded value (section 4.3,
  row Field): apply \<open>then\<close>, compare with \<open>shouldBe\<close> when one is configured, store the
  value under the field's name.
\<close>

definition shouldBe_message :: "string \<Rightarrow> primitive \<Rightarrow> primitive \<Rightarrow> string" where
  "shouldBe_message n e v =
     ''Expected '' @ n @ '' to be '' @ toString e @ '' but was '' @ toString v"

definition field_value ::
  "string \<Rightarrow> (primitive \<Rightarrow> primitive) option \<Rightarrow> primitive option \<Rightarrow> primitive \<Rightarrow> error + primitive"
where
  "field_value n thn exp v =
     (let v' = (case thn of None \<Rightarrow> v | Some f \<Rightarrow> f v)
      in case exp of
           None \<Rightarrow> Inr v'
         | Some e \<Rightarrow> if v' = e then Inr v' else Inl (ParsingError (shouldBe_message n e v')))"

text \<open>A run of the reader's loop hands back the instruction objects as it left them.\<close>

definition processed ::
  "Instruction \<Rightarrow> error + BufferReader \<times> vars \<times> vars \<times> Instruction list
     \<Rightarrow> error + BufferReader \<times> vars \<times> vars \<times> Instruction list"
where
  "processed i x =
     (case x of Inl e \<Rightarrow> Inl e | Inr (rd, r, s, is) \<Rightarrow> Inr (rd, r, s, i # is))"

text \<open>
  \<open>execute\<close> is the method of each instruction class: it returns the instruction object
  and the reader state as the call left them (\<open>result\<close> and \<open>storedVars\<close> are shared
  with the reader). \<open>read_loop\<close> is the \<open>for\<close> loop of \<open>BufferReader.read\<close> over the
  remaining instructions, with the reader's fields and the two local mappings.
\<close>

fun execute :: "Buffer \<Rightarrow> ReaderState \<Rightarrow> Instruction \<Rightarrow> error + Instruction \<times> ReaderState"
and read_loop ::
  "Buffer \<Rightarrow> BufferReader \<Rightarrow> vars \<Rightarrow> vars \<Rightarrow> Instruction list
     \<Rightarrow> error + BufferReader \<times> vars \<times> vars \<times> Instruction list"
where
  "execute buf rs (Field n dec thn exp sz) =
     (case dec buf (offset_bytes rs) (offset_bits rs) (mode rs) of
        Inl e \<Rightarrow> Inl e
      | Inr (v, sz') \<Rightarrow>
          (case field_value n thn exp v of
             Inl e \<Rightarrow> Inl e
           | Inr v' \<Rightarrow> Inr (Field n dec thn exp sz', rs\<lparr>result := (result rs)(n \<mapsto> v')\<rparr>)))"
| "execute buf rs (Literal n v) = Inr (Literal n v, rs\<lparr>result := (result rs)(n \<mapsto> v)\<rparr>)"
| "execute buf rs (Ignorable inst) =
     (case execute buf rs inst of
        Inl e \<Rightarrow> Inl e
      | Inr (inst', rs') \<Rightarrow>
          (case inst_name inst' of
             None \<Rightarrow> Inr (Ignorable inst', rs')
           | Some n \<Rightarrow>
               if n = [] then Inr (Ignorable inst', rs')
               else
                 (let v = (case result rs' n of None \<Rightarrow> PUndefined | Some x \<Rightarrow> x)
                  in Inr (Ignorable inst',
                          rs'\<lparr>result := (result rs')(n := None),
                              storedVars := (storedVars rs')(n \<mapsto> v)\<rparr>))))"
| "execute buf rs (SkipInstruction b) = Inr (SkipInstruction b, rs)"
| "execute buf rs (EndiannessInstruction m) = Inr (EndiannessInstruction m, rs)"
| "execute buf rs (PadInstruction sz) = Inr (PadInstruction (8 - offset_bits rs), rs)"
| "execute buf rs (DeriveInstruction n cb) =
     Inr (DeriveInstruction n cb, rs\<lparr>result := (result rs)(n \<mapsto> cb (combinedVars rs))\<rparr>)"
| "execute buf rs (IfInstruction p m is) =
     (if p (combinedVars rs) then
        (case read_loop (slice buf (offset_bytes rs) None)
                \<lparr>byteOffset = 0, bitOffset = 0, r_mode = m\<rparr> Map.empty Map.empty is of
           Inl e \<Rightarrow> Inl e
         | Inr (rd, subResult, sub_stored, is') \<Rightarrow>
             Inr (IfInstruction p m is', rs\<lparr>result := result rs ++ subResult\<rparr>))
      else Inr (IfInstruction p m is, rs))"
| "read_loop buf rd r s [] = Inr (rd, r, s, [])"
| "read_loop buf rd r s (EndiannessInstruction m # is) =
     processed (EndiannessInstruction m) (read_loop buf (rd\<lparr>r_mode := m\<rparr>) r s is)"
| "read_loop buf rd r s (i # is) =
     (case execute buf \<lparr>result = r, storedVars = s, offset_bytes = byteOffset rd,
                        offset_bits = bitOffset rd, mode = r_mode rd\<rparr> i of
        Inl e \<Rightarrow> Inl e
      | Inr (i', rs') \<Rightarrow>
          processed i' (read_loop buf (BufferReader_addOffset rd (inst_size i'))
                          (result rs') (storedVars rs') is))"


text \<open>
  \<open>BufferReader.read\<close> starts from the fresh reader (offsets 0, the constructor's mode)
  and two empty mappings and returns \<open>result\<close>; \<open>PayloadSpec.exec\<close> creates that reader
  over its own instruction array. Both also give the instruction objects after the run.
\<close>

definition BufferReader_read ::
  "Mode \<Rightarrow> Instruction list \<Rightarrow> Buffer \<Rightarrow> error + vars \<times> Instruction list"
where
  "BufferReader_read m instructions buffer =
     (case read_loop buffer \<lparr>byteOffset = 0, bitOffset = 0, r_mode = m\<rparr>
             Map.empty Map.empty instructions of
        Inl e \<Rightarrow> Inl e
      | Inr (rd, r, s, is') \<Rightarrow> Inr (r, is'))"

definition PayloadSpec_exec :: "PayloadSpec \<Rightarrow> Buffer \<Rightarrow> error + vars \<times> PayloadSpec" where
  "PayloadSpec_exec spec data =
     (case BufferReader_read (fst spec) (snd spec) data of
        Inl e \<Rightarrow> Inl e
      | Inr (r, is') \<Rightarrow> Inr (r, (fst spec, is')))"

text \<open>The result mapping of an execution, without the instruction objects.\<close>

definition exec_result :: "PayloadSpec \<Rightarrow> Buffer \<Rightarrow> error + vars" where
  "exec_result spec data =
     (case PayloadSpec_exec spec data of Inl e \<Rightarrow> Inl e | Inr (r, spec') \<Rightarrow> Inr r)"

text \<open>The final cursor of a run of a fresh reader, in bits.\<close>

definition final_position :: "PayloadSpec \<Rightarrow> Buffer \<Rightarrow> error + int" where
  "final_position spec data =
     (case read_loop data \<lparr>byteOffset = 0, bitOffset = 0, r_mode = fst spec\<rparr>
             Map.empty Map.empty (snd spec) of
        Inl e \<Rightarrow> Inl e
      | Inr (rd, r, s, is') \<Rightarrow> Inr (byteOffset rd * 8 + bitOffset rd))"

text \<open>The fluent builder: each call appends one instruction object.\<close>

definition new_PayloadSpec :: "Mode \<Rightarrow> PayloadSpec" where
  "new_PayloadSpec m = (m, [])"

definition field ::
  "string \<Rightarrow> decoder \<Rightarrow> (primitive \<Rightarrow> primitive) option \<Rightarrow> primitive option
     \<Rightarrow> PayloadSpec \<Rightarrow> PayloadSpec"
where
  "field n ty thn exp spec = (fst spec, snd spec @ [Field n ty thn exp 0])"

definition field_literal :: "string \<Rightarrow> primitive \<Rightarrow> PayloadSpec \<Rightarrow> PayloadSpec" where
  "field_literal n v spec = (fst spec, snd spec @ [Literal n v])"

definition store ::
  "string \<Rightarrow> decoder \<Rightarrow> (primitive \<Rightarrow> primitive) option \<Rightarrow> primitive option
     \<Rightarrow> PayloadSpec \<Rightarrow> PayloadSpec"
where
  "store n ty thn exp spec = (fst spec, snd spec @ [Ignorable (Field n ty thn exp 0)])"

definition store_literal :: "string \<Rightarrow> primitive \<Rightarrow> PayloadSpec \<Rightarrow> PayloadSpec" where
  "store_literal n v spec = (fst spec, snd spec @ [Ignorable (Literal n v)])"

definition derive :: "string \<Rightarrow> (vars \<Rightarrow> primitive) \<Rightarrow> PayloadSpec \<Rightarrow> PayloadSpec" where
  "derive n callback spec = (fst spec, snd spec @ [DeriveInstruction n callback])"

definition skip :: "int \<Rightarrow> PayloadSpec \<Rightarrow> PayloadSpec" where
  "skip skipBytes spec = (fst spec, snd spec @ [SkipInstruction skipBytes])"

text \<open>\<open>skip\<close> with a numeric type: the whole bytes of its \<open>bitSize()\<close>.\<close>

definition skip_type :: "int \<Rightarrow> PayloadSpec \<Rightarrow> PayloadSpec" where
  "skip_type bitSize spec = (fst spec, snd spec @ [SkipInstruction (bitSize div 8)])"

definition if_spec :: "(vars \<Rightarrow> bool) \<Rightarrow> PayloadSpec \<Rightarrow> PayloadSpec \<Rightarrow> PayloadSpec" where
  "if_spec predicate otherSpec spec =
     (fst spec, snd spec @ [IfInstruction predicate (fst otherSpec) (snd otherSpec)])"

definition pad :: "PayloadSpec \<Rightarrow> PayloadSpec" where
  "pad spec = (fst spec, snd spec @ [PadInstruction 0])"

definition endianness :: "Mode \<Rightarrow> PayloadSpec \<Rightarrow> PayloadSpec" where
  "endianness m spec = (fst spec, snd spec @ [EndiannessInstruction m])"

section \<open>Field types\<close>

text \<open>
  Modelled from the spec: \<open>types.ts\<close> is not part of the sources. Section 4.2 of the
  specification: unsigned integers of 1, 2 and 4 bytes in the active byte order, which
  must start at a byte boundary; bit fields of a width from 1 to 16, most significant bit
  first, which need no alignment; a boolean is one bit. The alignment message is the one
  the tests expect.
\<close>

definition be_nat :: "Buffer \<Rightarrow> nat" where
  "be_nat bs = foldl (\<lambda>acc b. acc * 256 + unat b) 0 bs"

definition alignment_message :: "int \<Rightarrow> string" where
  "alignment_message b =
     ''Buffer position is not at a byte boundary (bit offset '' @ show_int b
       @ ''). Do you need to use pad()?''"

definition uint_type :: "nat \<Rightarrow> decoder" where
  "uint_type n buf bytes bits m =
     (if bits \<noteq> 0 then Inl (ParsingError (alignment_message bits))
      else if bytes < 0 \<or> int (length buf) < bytes + int n then Inl RangeError
      else let bs = take n (drop (nat bytes) buf)
           in Inr (PNum (int (be_nat (case m of BE \<Rightarrow> bs | LE \<Rightarrow> rev bs))), int n * 8))"

definition UInt8 :: decoder where "UInt8 = uint_type 1"
definition UInt16 :: decoder where "UInt16 = uint_type 2"
definition UInt32 :: decoder where "UInt32 = uint_type 4"

definition Bits :: "nat \<Rightarrow> decoder" where
  "Bits w buf bytes bits m =
     (if bytes < 0 \<or> bits < 0 \<or> 8 * int (length buf) < bytes * 8 + bits + int w
      then Inl RangeError
      else Inr (PNum (int ((be_nat buf div 2 ^ (8 * length buf - nat (bytes * 8 + bits) - w))
                            mod 2 ^ w)), int w))"

definition Bool_type :: decoder where
  "Bool_type buf bytes bits m =
     (case Bits 1 buf bytes bits m of
        Inl e \<Rightarrow> Inl e
      | Inr (v, sz) \<Rightarrow> Inr (PBool (v = PNum 1), sz))"

section \<open>The cursor of \<open>pos_buffer.ts\<close>\<close>

record PosBuffer =
  buffer :: Buffer
  offsetBytes :: int
  offsetBits :: int
  options_endianness :: "Mode option"

text \<open>
  A data type instance, as \<open>PosBuffer\<close> uses one: its \<open>size\<close> in bits and its
  \<open>execute\<close> on the cursor. The classes themselves are in \<open>types.ts\<close>.
\<close>

record DataType =
  dt_size :: int
  dt_execute :: "PosBuffer \<Rightarrow> error + primitive"

text \<open>
  The constructor, with the two optional entries of \<open>BufferOptions\<close>; a missing offset
  (and an offset of 0) gives 0.
\<close>

definition new_PosBuffer :: "Buffer \<Rightarrow> Mode option \<Rightarrow> (int \<times> int) option \<Rightarrow> PosBuffer" where
  "new_PosBuffer bytes e off =
     \<lparr>buffer = bytes,
      offsetBytes = (case off of None \<Rightarrow> 0 | Some (b, t) \<Rightarrow> b),
      offsetBits = (case off of None \<Rightarrow> 0 | Some (b, t) \<Rightarrow> t),
      options_endianness = e\<rparr>"

definition PosBuffer_mode :: "PosBuffer \<Rightarrow> Mode" where
  "PosBuffer_mode pb = (case options_endianness pb of None \<Rightarrow> BE | Some m \<Rightarrow> m)"

definition PosBuffer_addOffset :: "PosBuffer \<Rightarrow> int \<Rightarrow> int \<times> int" where
  "PosBuffer_addOffset pb bitSize =
     (let currentOffsetInBits = offsetBytes pb * 8 + offsetBits pb;
          updatedOffsetInBits = currentOffsetInBits + bitSize
      in (updatedOffsetInBits div 8, js_rem updatedOffsetInBits 8))"

definition updateOffset :: "PosBuffer \<Rightarrow> int \<Rightarrow> PosBuffer" where
  "updateOffset pb bitSize =
     (let updateOffset = PosBuffer_addOffset pb bitSize
      in pb\<lparr>offsetBytes := fst updateOffset, offsetBits := snd updateOffset\<rparr>)"

definition PosBuffer_read ::
  "PosBuffer \<Rightarrow> DataType \<Rightarrow> (primitive \<Rightarrow> primitive) option \<Rightarrow> error + primitive \<times> PosBuffer"
where
  "PosBuffer_read pb dataInstruction thn =
     (if offsetBytes pb > int (length (buffer pb)) - 1
      then Inl (Error ''Attempt to read outside of the buffer'')
      else case dt_execute dataInstruction pb of
             Inl e \<Rightarrow> Inl e
           | Inr v \<Rightarrow>
               (let thennedValue = (case thn of None \<Rightarrow> v | Some f \<Rightarrow> f v)
                in Inr (thennedValue, updateOffset pb (dt_size dataInstruction))))"

definition PosBuffer_skip :: "PosBuffer \<Rightarrow> int \<Rightarrow> error + PosBuffer" where
  "PosBuffer_skip pb bytes =
     (let pb' = updateOffset pb (bytes * 8)
      in if offsetBytes pb' > int (length (buffer pb')) - 1 \<or> offsetBytes pb' < 0
         then Inl (Error ''Attempt to skip outside the buffer'')
         else Inr pb')"

definition PosBuffer_peek :: "PosBuffer \<Rightarrow> DataType \<Rightarrow> int \<Rightarrow> error + primitive" where
  "PosBuffer_peek pb dataInstruction byteOffset' =
     (if byteOffset' < 0
         \<or> byteOffset' + fst (PosBuffer_addOffset pb (dt_size dataInstruction))
             > int (length (buffer pb))
      then Inl (Error ''Attempt to peek outside of the buffer'')
      else dt_execute dataInstruction (pb\<lparr>offsetBytes := byteOffset', offsetBits := 0\<rparr>))"

definition PosBuffer_pad :: "PosBuffer \<Rightarrow> PosBuffer" where
  "PosBuffer_pad pb =
     (if offsetBits pb \<noteq> 0 then pb\<lparr>offsetBytes := offsetBytes pb + 1, offsetBits := 0\<rparr>
      else pb)"

definition PosBuffer_slice :: "PosBuffer \<Rightarrow> int \<Rightarrow> int option \<Rightarrow> PosBuffer" where
  "PosBuffer_slice pb start stop = new_PosBuffer (slice (buffer pb) start stop) None None"

text \<open>A field type of a fixed size, instantiated for the cursor.\<close>

definition DataType_of :: "decoder \<Rightarrow> int \<Rightarrow> DataType" where
  "DataType_of ty sz =
     \<lparr>dt_size = sz,
      dt_execute = (\<lambda>pb. case ty (buffer pb) (offsetBytes pb) (offsetBits pb) (PosBuffer_mode pb) of
                           Inl e \<Rightarrow> Inl e
                         | Inr (v, n) \<Rightarrow> Inr v)\<rparr>"


section \<open>Notions used to state the properties\<close>

definition is_endianness :: "Instruction \<Rightarrow> bool" where
  "is_endianness i = (case i of EndiannessInstruction m \<Rightarrow> True | _ \<Rightarrow> False)"

text \<open>Running the loop over \<open>ys\<close> from wherever an earlier run of the loop stopped.\<close>

definition then_loop ::
  "Buffer \<Rightarrow> Instruction list
     \<Rightarrow> error + BufferReader \<times> vars \<times> vars \<times> Instruction list
     \<Rightarrow> error + BufferReader \<times> vars \<times> vars \<times> Instruction list"
where
  "then_loop buf ys x =
     (case x of
        Inl e \<Rightarrow> Inl e
      | Inr (rd, r, s, xs') \<Rightarrow>
          (case read_loop buf rd r s ys of
             Inl e \<Rightarrow> Inl e
           | Inr (rd', r', s', ys') \<Rightarrow> Inr (rd', r', s', xs' @ ys')))"

text \<open>
  An instruction object as the builder created it: every \<open>size\<close> that \<open>execute\<close>
  assigns is back at its initial value 0. Two programs with the same image differ only in
  the mutable state of their instruction objects.
\<close>

primrec as_built :: "Instruction \<Rightarrow> Instruction" where
  "as_built (Field n dec thn exp sz) = Field n dec thn exp 0"
| "as_built (Literal n v) = Literal n v"
| "as_built (Ignorable inst) = Ignorable (as_built inst)"
| "as_built (SkipInstruction b) = SkipInstruction b"
| "as_built (EndiannessInstruction m) = EndiannessInstruction m"
| "as_built (PadInstruction sz) = PadInstruction 0"
| "as_built (DeriveInstruction n cb) = DeriveInstruction n cb"
| "as_built (IfInstruction p m is) = IfInstruction p m (map as_built is)"

text \<open>The keys of \<open>result\<close> an instruction can assign or delete, nested programs included.\<close>

primrec names :: "Instruction \<Rightarrow> string set" where
  "names (Field n dec thn exp sz) = {n}"
| "names (Literal n v) = {n}"
| "names (Ignorable inst) = names inst"
| "names (SkipInstruction b) = {}"
| "names (EndiannessInstruction m) = {}"
| "names (PadInstruction sz) = {}"
| "names (DeriveInstruction n cb) = {n}"
| "names (IfInstruction p m is) = \<Union> (set (map names is))"

text \<open>What the reader's loop observes of an \<open>execute\<close>, and a caller of a run of the loop.\<close>

definition exec_view ::
  "error + Instruction \<times> ReaderState \<Rightarrow> error + int \<times> ReaderState" where
  "exec_view x = (case x of Inl e \<Rightarrow> Inl e | Inr (i, rs) \<Rightarrow> Inr (inst_size i, rs))"

definition loop_view ::
  "error + BufferReader \<times> vars \<times> vars \<times> Instruction list
     \<Rightarrow> error + BufferReader \<times> vars \<times> vars" where
  "loop_view x = (case x of Inl e \<Rightarrow> Inl e | Inr (rd, r, s, is) \<Rightarrow> Inr (rd, r, s))"

text \<open>
  The mode set by the last endianness instruction of \<open>pre\<close>, or \<open>m\<close> when \<open>pre\<close> has none.
\<close>

definition active_mode :: "Mode \<Rightarrow> Instruction list \<Rightarrow> Mode" where
  "active_mode m pre = last (m # concat (map (\<lambda>i. case i of EndiannessInstruction m' \<Rightarrow> [m'] | _ \<Rightarrow> []) pre))"

text \<open>The position invariant of the specification's data model.\<close>

definition normalized :: "BufferReader \<Rightarrow> bool" where
  "normalized rd = (0 \<le> byteOffset rd \<and> 0 \<le> bitOffset rd \<and> bitOffset rd < 8)"

text \<open>The cursor of a reader in bits.\<close>

definition position :: "BufferReader \<Rightarrow> int" where
  "position rd = byteOffset rd * 8 + bitOffset rd"

text \<open>What an \<open>execute\<close> leaves behind, without the offsets it was given.\<close>

definition state_view ::
  "error + Instruction \<times> ReaderState \<Rightarrow> error + Instruction \<times> vars \<times> vars" where
  "state_view x =
     (case x of Inl e \<Rightarrow> Inl e | Inr (i, rs) \<Rightarrow> Inr (i, result rs, storedVars rs))"

section \<open>Multi-way switch\<close>

text \<open>
  Modelled from the spec: \<open>switch\<close> is called by the tests but is not in the
  \<open>payload_spec.ts\<close> of the sources. Section 4.3, row Multi-way-Switch: the key function
  is applied to the merged mapping, the key is looked up in the table by its string form,
  the matched program (or else the one under \<open>default\<close>) runs as the true branch of a
  conditional does, and without a match nothing happens.
\<close>

definition switch_lookup :: "(string \<times> PayloadSpec) list \<Rightarrow> string \<Rightarrow> PayloadSpec option" where
  "switch_lookup table key =
     (case map_of table key of Some spec \<Rightarrow> Some spec | None \<Rightarrow> map_of table ''default'')"

definition SwitchInstruction_execute ::
  "(vars \<Rightarrow> primitive) \<Rightarrow> (string \<times> PayloadSpec) list \<Rightarrow> Buffer \<Rightarrow> ReaderState
     \<Rightarrow> error + ReaderState"
where
  "SwitchInstruction_execute keyFn table buf rs =
     (case switch_lookup table (toString (keyFn (combinedVars rs))) of
        None \<Rightarrow> Inr rs
      | Some spec \<Rightarrow>
          (case execute buf rs (IfInstruction (\<lambda>r. True) (fst spec) (snd spec)) of
             Inl e \<Rightarrow> Inl e
           | Inr (i, rs') \<Rightarrow> Inr rs'))"

section \<open>The reader's loop\<close>

lemma read_loop_dispatch:
  "\<not> is_endianness i \<Longrightarrow>
   read_loop buf rd r s (i # is) =
     (case execute buf \<lparr>result = r, storedVars = s, offset_bytes = byteOffset rd,
                        offset_bits = bitOffset rd, mode = r_mode rd\<rparr> i of
        Inl e \<Rightarrow> Inl e
      | Inr (i', rs') \<Rightarrow>
          processed i' (read_loop buf (BufferReader_addOffset rd (inst_size i'))
                          (result rs') (storedVars rs') is))"
  by (cases i) (simp_all add: is_endianness_def)

lemma is_endianness_cases:
  assumes "is_endianness i"
  obtains m where "i = EndiannessInstruction m"
  using assms by (cases i) (simp_all add: is_endianness_def)

lemma then_loop_processed: "then_loop buf ys (processed i x) = processed i (then_loop buf ys x)"
  by (auto simp: then_loop_def processed_def split: sum.splits)

lemma read_loop_append:
  "read_loop buf rd r s (xs @ ys) = then_loop buf ys (read_loop buf rd r s xs)"
proof (induction xs arbitrary: rd r s)
  case Nil
  show ?case by (simp add: then_loop_def split: sum.splits)
next
  case (Cons i xs)
  show ?case
  proof (cases "is_endianness i")
    case True
    then obtain m where "i = EndiannessInstruction m" by (rule is_endianness_cases)
    then show ?thesis by (simp add: Cons.IH then_loop_processed)
  next
    case False
    show ?thesis
      by (simp add: read_loop_dispatch [OF False] Cons.IH then_loop_processed split: sum.splits)
         (simp add: then_loop_def)
  qed
qed

section \<open>The state kept in instruction objects\<close>

lemma is_endianness_as_built [simp]: "is_endianness (as_built i) = is_endianness i"
  by (cases i) (simp_all add: is_endianness_def)

lemma inst_name_as_built [simp]: "inst_name (as_built i) = inst_name i"
  by (induction i) simp_all

lemma loop_view_processed: "loop_view (processed i x) = loop_view x"
  by (auto simp: loop_view_def processed_def split: sum.splits)

lemma exec_view_eq_cases:
  assumes "exec_view x = exec_view y"
  obtains (err) e where "x = Inl e" "y = Inl e"
        | (ok) i j rs where "x = Inr (i, rs)" "y = Inr (j, rs)" "inst_size i = inst_size j"
  using assms by (auto simp: exec_view_def split: sum.splits)

lemma loop_view_eq_cases:
  assumes "loop_view x = loop_view y"
  obtains (err) e where "x = Inl e" "y = Inl e"
        | (ok) rd r s xs ys where "x = Inr (rd, r, s, xs)" "y = Inr (rd, r, s, ys)"
  using assms by (auto simp: loop_view_def split: sum.splits)

text \<open>A run changes nothing of a program but the sizes its instructions remember.\<close>

lemma read_loop_as_built_aux:
  assumes "\<And>i buf rs i' rs'. i \<in> set is \<Longrightarrow> execute buf rs i = Inr (i', rs')
             \<Longrightarrow> as_built i' = as_built i"
  shows "read_loop buf rd r s is = Inr (rd', r', s', is') \<Longrightarrow> map as_built is' = map as_built is"
  using assms
proof (induction "is" arbitrary: rd r s rd' r' s' is')
  case Nil
  then show ?case by simp
next
  case (Cons i "is")
  show ?case
  proof (cases "is_endianness i")
    case True
    then obtain m where i: "i = EndiannessInstruction m" by (rule is_endianness_cases)
    from Cons.prems(1) obtain t where
      t: "read_loop buf (rd\<lparr>r_mode := m\<rparr>) r s is = Inr (rd', r', s', t)" and is': "is' = i # t"
      by (auto simp: i processed_def split: sum.splits)
    have "map as_built t = map as_built is"
      by (rule Cons.IH [OF t]) (auto intro: Cons.prems(2))
    then show ?thesis by (simp add: is')
  next
    case False
    from Cons.prems(1) obtain i1 rs1 t where
      e: "execute buf \<lparr>result = r, storedVars = s, offset_bytes = byteOffset rd,
                        offset_bits = bitOffset rd, mode = r_mode rd\<rparr> i = Inr (i1, rs1)" and
      t: "read_loop buf (BufferReader_addOffset rd (inst_size i1)) (result rs1) (storedVars rs1) is
            = Inr (rd', r', s', t)" and is': "is' = i1 # t"
      by (auto simp: read_loop_dispatch [OF False] processed_def split: sum.splits)
    have "as_built i1 = as_built i"
      by (rule Cons.prems(2) [OF _ e]) simp
    moreover have "map as_built t = map as_built is"
      by (rule Cons.IH [OF t]) (auto intro: Cons.prems(2))
    ultimately show ?thesis by (simp add: is')
  qed
qed

lemma execute_as_built:
  "execute buf rs i = Inr (i', rs') \<Longrightarrow> as_built i' = as_built i"
proof (induction i arbitrary: buf rs i' rs')
  case (IfInstruction p m "is")
  show ?case
  proof (cases "p (combinedVars rs)")
    case True
    with IfInstruction.prems obtain rd sub st is1 where
      l: "read_loop (slice buf (offset_bytes rs) None) \<lparr>byteOffset = 0, bitOffset = 0, r_mode = m\<rparr>
            Map.empty Map.empty is = Inr (rd, sub, st, is1)" and i': "i' = IfInstruction p m is1"
      by (auto split: sum.splits)
    have "map as_built is1 = map as_built is"
      by (rule read_loop_as_built_aux [OF _ l]) (rule IfInstruction.IH)
    then show ?thesis by (simp add: i')
  next
    case False
    with IfInstruction.prems show ?thesis by auto
  qed
qed (auto split: sum.splits option.splits if_splits)

lemma read_loop_as_built:
  "read_loop buf rd r s is = Inr (rd', r', s', is') \<Longrightarrow> map as_built is' = map as_built is"
  by (rule read_loop_as_built_aux [OF execute_as_built])

lemma execute_inst_name:
  assumes "execute buf rs i = Inr (i', rs')"
  shows "inst_name i' = inst_name i"
proof -
  have "inst_name (as_built i') = inst_name (as_built i)"
    by (simp only: execute_as_built [OF assms])
  then show ?thesis by simp
qed

text \<open>What a run observes does not depend on the remembered sizes.\<close>

lemma read_loop_built_view_aux:
  assumes "\<And>i buf rs. i \<in> set is \<Longrightarrow>
             exec_view (execute buf rs (as_built i)) = exec_view (execute buf rs i)"
  shows "loop_view (read_loop buf rd r s (map as_built is)) = loop_view (read_loop buf rd r s is)"
  using assms
proof (induction "is" arbitrary: rd r s)
  case Nil
  show ?case by simp
next
  case (Cons i "is")
  have IH: "\<And>rd r s. loop_view (read_loop buf rd r s (map as_built is))
                       = loop_view (read_loop buf rd r s is)"
    by (rule Cons.IH) (auto intro: Cons.prems)
  show ?case
  proof (cases "is_endianness i")
    case True
    then obtain m where i: "i = EndiannessInstruction m" by (rule is_endianness_cases)
    show ?thesis by (simp add: i loop_view_processed IH)
  next
    case False
    then have F': "\<not> is_endianness (as_built i)" by simp
    let ?rs = "\<lparr>result = r, storedVars = s, offset_bytes = byteOffset rd,
                 offset_bits = bitOffset rd, mode = r_mode rd\<rparr>"
    have "exec_view (execute buf ?rs (as_built i)) = exec_view (execute buf ?rs i)"
      by (rule Cons.prems) simp
    then show ?thesis
    proof (cases rule: exec_view_eq_cases)
      case (err e)
      then show ?thesis
        by (simp add: read_loop_dispatch [OF False] read_loop_dispatch [OF F'])
    next
      case (ok i1 j1 rs1)
      then show ?thesis
        by (simp add: read_loop_dispatch [OF False] read_loop_dispatch [OF F']
                      loop_view_processed IH)
    qed
  qed
qed

lemma execute_built_view:
  "exec_view (execute buf rs (as_built i)) = exec_view (execute buf rs i)"
proof (induction i arbitrary: buf rs)
  case (Ignorable inst)
  from Ignorable.IH [of buf rs] show ?case
  proof (cases rule: exec_view_eq_cases)
    case (err e)
    then show ?thesis by (simp add: exec_view_def)
  next
    case (ok i1 j1 rs1)
    have "inst_name i1 = inst_name j1"
      using execute_inst_name [OF ok(1)] execute_inst_name [OF ok(2)] by simp
    with ok show ?thesis
      by (simp add: exec_view_def Let_def split: option.splits)
  qed
next
  case (IfInstruction p m "is")
  have "loop_view (read_loop (slice buf (offset_bytes rs) None)
                     \<lparr>byteOffset = 0, bitOffset = 0, r_mode = m\<rparr> Map.empty Map.empty
                     (map as_built is))
        = loop_view (read_loop (slice buf (offset_bytes rs) None)
                     \<lparr>byteOffset = 0, bitOffset = 0, r_mode = m\<rparr> Map.empty Map.empty is)"
    by (rule read_loop_built_view_aux) (rule IfInstruction.IH)
  then show ?case
    by (cases rule: loop_view_eq_cases) (simp_all add: exec_view_def)
qed (simp_all add: exec_view_def split: sum.splits)

lemma read_loop_built_view:
  "loop_view (read_loop buf rd r s (map as_built is)) = loop_view (read_loop buf rd r s is)"
  by (rule read_loop_built_view_aux) (rule execute_built_view)

lemma read_loop_same_shape:
  assumes "map as_built is1 = map as_built is2"
  shows "loop_view (read_loop buf rd r s is1) = loop_view (read_loop buf rd r s is2)"
  using read_loop_built_view [of buf rd r s is1] read_loop_built_view [of buf rd r s is2] assms
  by simp

lemmas run_defs =
  exec_result_def PayloadSpec_exec_def BufferReader_read_def final_position_def
  processed_def BufferReader_addOffset_def js_rem_def field_value_def combinedVars_def

lemmas type_defs =
  UInt8_def UInt16_def UInt32_def uint_type_def Bits_def Bool_type_def be_nat_def


section \<open>Cursor arithmetic and the active mode\<close>

lemma addOffset_zero: "normalized rd \<Longrightarrow> BufferReader_addOffset rd 0 = rd"
  by (auto simp: normalized_def BufferReader_addOffset_def js_rem_def Let_def sgn_if
      intro!: BufferReader.equality)

text \<open>
  Below 0 it is not: \<open>%\<close> keeps the sign, so \<open>addOffset(0)\<close> moves a cursor at byte -1,
  bit -5 (bit -13) to byte -2, bit -5.
\<close>

lemma addOffset_zero_below_start:
  "BufferReader_addOffset \<lparr>byteOffset = - 1, bitOffset = - 5, r_mode = m\<rparr> 0
     = \<lparr>byteOffset = - 2, bitOffset = - 5, r_mode = m\<rparr>"
  by (simp add: BufferReader_addOffset_def js_rem_def)

lemma addOffset_mode [simp]: "r_mode (BufferReader_addOffset rd n) = r_mode rd"
  by (simp add: BufferReader_addOffset_def Let_def)

lemma addOffset_forward:
  assumes "normalized rd" and "0 \<le> n"
  shows "normalized (BufferReader_addOffset rd n)"
    and "position (BufferReader_addOffset rd n) = position rd + n"
  using assms
  by (auto simp: normalized_def BufferReader_addOffset_def js_rem_def Let_def sgn_if position_def
           pos_imp_zdiv_nonneg_iff)

lemma active_mode_Nil [simp]: "active_mode m [] = m"
  by (simp add: active_mode_def)

lemma active_mode_Cons:
  "active_mode m (i # is) = active_mode (case i of EndiannessInstruction m' \<Rightarrow> m' | _ \<Rightarrow> m) is"
  by (cases i) (simp_all add: active_mode_def)

lemma active_mode_other: "\<not> is_endianness i \<Longrightarrow> active_mode m (i # is) = active_mode m is"
  by (cases i) (simp_all add: active_mode_def is_endianness_def)

lemma read_loop_mode:
  "read_loop buf rd r s pre = Inr (rd1, r1, s1, pre') \<Longrightarrow> r_mode rd1 = active_mode (r_mode rd) pre"
proof (induction pre arbitrary: rd r s pre')
  case Nil
  then show ?case by simp
next
  case (Cons i pre)
  show ?case
  proof (cases "is_endianness i")
    case True
    then obtain m where i: "i = EndiannessInstruction m" by (rule is_endianness_cases)
    from Cons.prems obtain t where
      "read_loop buf (rd\<lparr>r_mode := m\<rparr>) r s pre = Inr (rd1, r1, s1, t)"
      by (auto simp: i processed_def split: sum.splits)
    from Cons.IH [OF this] show ?thesis by (simp add: i active_mode_Cons)
  next
    case False
    from Cons.prems obtain i1 rs1 t where
      e: "execute buf \<lparr>result = r, storedVars = s, offset_bytes = byteOffset rd,
                        offset_bits = bitOffset rd, mode = r_mode rd\<rparr> i = Inr (i1, rs1)" and
      t: "read_loop buf (BufferReader_addOffset rd (inst_size i1)) (result rs1) (storedVars rs1) pre
            = Inr (rd1, r1, s1, t)"
      by (auto simp: read_loop_dispatch [OF False] processed_def split: sum.splits)
    from Cons.IH [OF t] show ?thesis by (simp add: active_mode_other [OF False])
  qed
qed

text \<open>
  As long as no executed instruction has a negative size, the cursor stays normalized and
  ends at the start position plus the sum of the sizes, as the instructions report them
  after their \<open>execute\<close>.
\<close>

lemma read_loop_position:
  assumes "read_loop buf rd r s is = Inr (rd', r', s', is')"
    and "normalized rd" and "\<forall>i \<in> set is'. 0 \<le> inst_size i"
  shows "normalized rd' \<and> position rd' = position rd + sum_list (map inst_size is')"
  using assms
proof (induction "is" arbitrary: rd r s is')
  case Nil
  then show ?case by simp
next
  case (Cons i "is")
  show ?case
  proof (cases "is_endianness i")
    case True
    then obtain m where i: "i = EndiannessInstruction m" by (rule is_endianness_cases)
    from Cons.prems(1) obtain t where
      t: "read_loop buf (rd\<lparr>r_mode := m\<rparr>) r s is = Inr (rd', r', s', t)" and is': "is' = i # t"
      by (auto simp: i processed_def split: sum.splits)
    have "normalized (rd\<lparr>r_mode := m\<rparr>)" using Cons.prems(2) by (simp add: normalized_def)
    from Cons.IH [OF t this] Cons.prems(3) show ?thesis
      by (simp add: is' i position_def)
  next
    case False
    from Cons.prems(1) obtain i1 rs1 t where
      e: "execute buf \<lparr>result = r, storedVars = s, offset_bytes = byteOffset rd,
                        offset_bits = bitOffset rd, mode = r_mode rd\<rparr> i = Inr (i1, rs1)" and
      t: "read_loop buf (BufferReader_addOffset rd (inst_size i1)) (result rs1) (storedVars rs1) is
            = Inr (rd', r', s', t)" and is': "is' = i1 # t"
      by (auto simp: read_loop_dispatch [OF False] processed_def split: sum.splits)
    have sz: "0 \<le> inst_size i1" using Cons.prems(3) by (simp add: is')
    from Cons.IH [OF t addOffset_forward(1) [OF Cons.prems(2) sz]] Cons.prems(3)
    show ?thesis
      by (simp add: is' addOffset_forward(2) [OF Cons.prems(2) sz])
  qed
qed

text \<open>
  \<open>PadInstruction\<close> sets its size to \<open>8 - bits\<close> whatever the bit offset is, so the
  reader always continues at the start of the next byte.
\<close>

lemma PadInstruction_next_byte:
  "normalized rd \<Longrightarrow>
   read_loop buf rd r s (PadInstruction z # rest)
     = processed (PadInstruction (8 - bitOffset rd))
         (read_loop buf (rd\<lparr>byteOffset := byteOffset rd + 1, bitOffset := 0\<rparr>) r s rest)"
  by (simp add: BufferReader_addOffset_def normalized_def js_rem_def Let_def sgn_if)

lemma PosBuffer_pad_aligned: "offsetBits pb = 0 \<Longrightarrow> PosBuffer_pad pb = pb"
  by (simp add: PosBuffer_pad_def)

text \<open>The guard of \<open>PosBuffer.read\<close> looks at the byte offset only, not at the data type.\<close>

lemma PosBuffer_read_guard:
  "PosBuffer_read pb dt thn =
     (if int (length (buffer pb)) \<le> offsetBytes pb
      then Inl (Error ''Attempt to read outside of the buffer'')
      else case dt_execute dt pb of
             Inl e \<Rightarrow> Inl e
           | Inr v \<Rightarrow> Inr (case thn of None \<Rightarrow> v | Some f \<Rightarrow> f v, updateOffset pb (dt_size dt)))"
  by (auto simp: PosBuffer_read_def Let_def split: sum.splits)

section \<open>Keys a program does not touch\<close>

lemma inst_name_in_names: "inst_name i = Some n \<Longrightarrow> n \<in> names i"
  by (induction i) auto

lemma read_loop_untouched_aux:
  assumes "\<And>i buf rs i' rs'. i \<in> set is \<Longrightarrow> execute buf rs i = Inr (i', rs')
             \<Longrightarrow> n \<notin> names i \<Longrightarrow> result rs' n = result rs n"
  shows "read_loop buf rd r s is = Inr (rd', r', s', is') \<Longrightarrow> n \<notin> \<Union> (set (map names is))
           \<Longrightarrow> r' n = r n"
  using assms
proof (induction "is" arbitrary: rd r s rd' r' s' is')
  case Nil
  then show ?case by simp
next
  case (Cons i "is")
  have n_is: "n \<notin> \<Union> (set (map names is))" and n_i: "n \<notin> names i"
    using Cons.prems(2) by auto
  show ?case
  proof (cases "is_endianness i")
    case True
    then obtain m where i: "i = EndiannessInstruction m" by (rule is_endianness_cases)
    from Cons.prems(1) obtain t where
      t: "read_loop buf (rd\<lparr>r_mode := m\<rparr>) r s is = Inr (rd', r', s', t)"
      by (auto simp: i processed_def split: sum.splits)
    show ?thesis
      by (rule Cons.IH [OF t n_is]) (auto intro: Cons.prems(3))
  next
    case False
    from Cons.prems(1) obtain i1 rs1 t where
      e: "execute buf \<lparr>result = r, storedVars = s, offset_bytes = byteOffset rd,
                        offset_bits = bitOffset rd, mode = r_mode rd\<rparr> i = Inr (i1, rs1)" and
      t: "read_loop buf (BufferReader_addOffset rd (inst_size i1)) (result rs1) (storedVars rs1) is
            = Inr (rd', r', s', t)"
      by (auto simp: read_loop_dispatch [OF False] processed_def split: sum.splits)
    have "result rs1 n = r n"
      using Cons.prems(3) [OF _ e n_i] by simp
    moreover have "r' n = result rs1 n"
      by (rule Cons.IH [OF t n_is]) (auto intro: Cons.prems(3))
    ultimately show ?thesis by simp
  qed
qed

lemma execute_untouched:
  "execute buf rs i = Inr (i', rs') \<Longrightarrow> n \<notin> names i \<Longrightarrow> result rs' n = result rs n"
proof (induction i arbitrary: buf rs i' rs')
  case (Ignorable inst)
  from Ignorable.prems(1) obtain i1 rs1 where
    e: "execute buf rs inst = Inr (i1, rs1)"
    by (auto split: sum.splits)
  have r1: "result rs1 n = result rs n"
    using Ignorable.IH [OF e] Ignorable.prems(2) by simp
  have nm: "inst_name i1 = inst_name inst" by (rule execute_inst_name [OF e])
  have "inst_name inst \<noteq> Some n"
    using inst_name_in_names [of inst n] Ignorable.prems(2) by auto
  with Ignorable.prems(1) e nm r1 show ?case
    by (auto simp: Let_def split: option.splits if_splits)
next
  case (IfInstruction p m "is")
  show ?case
  proof (cases "p (combinedVars rs)")
    case True
    with IfInstruction.prems(1) obtain rd sub st is1 where
      l: "read_loop (slice buf (offset_bytes rs) None) \<lparr>byteOffset = 0, bitOffset = 0, r_mode = m\<rparr>
            Map.empty Map.empty is = Inr (rd, sub, st, is1)"
      and rs': "rs' = rs\<lparr>result := result rs ++ sub\<rparr>"
      by (auto split: sum.splits)
    have "sub n = Map.empty n"
      by (rule read_loop_untouched_aux [OF _ l]) (use IfInstruction in auto)
    then show ?thesis by (simp add: rs' map_add_def)
  next
    case False
    with IfInstruction.prems show ?thesis by auto
  qed
qed (auto split: sum.splits)

lemma read_loop_untouched:
  "read_loop buf rd r s is = Inr (rd', r', s', is') \<Longrightarrow> n \<notin> \<Union> (set (map names is))
     \<Longrightarrow> r' n = r n"
  by (rule read_loop_untouched_aux [OF execute_untouched])

section \<open>Conditionals\<close>

text \<open>The nested run of an \<open>IfInstruction\<close> is \<open>otherSpec.exec\<close> on the slice.\<close>

lemma IfInstruction_execute_exec:
  "execute buf rs (IfInstruction p m is) =
     (if p (combinedVars rs) then
        (case PayloadSpec_exec (m, is) (slice buf (offset_bytes rs) None) of
           Inl e \<Rightarrow> Inl e
         | Inr (subResult, spec') \<Rightarrow>
             Inr (IfInstruction p m (snd spec'), rs\<lparr>result := result rs ++ subResult\<rparr>))
      else Inr (IfInstruction p m is, rs))"
  by (simp add: PayloadSpec_exec_def BufferReader_read_def split: sum.splits)

section \<open>The claims\<close>

text \<open>
  C1. A pad instruction should leave a cursor that is at a byte boundary where it is.
  \<open>PosBuffer.pad\<close> does; \<open>PadInstruction\<close> does not: from bit offset 0 it reports the
  size 8, so the program \<open>pad().field('count', UInt8)\<close> on the bytes 01 02 skips the
  first byte and reads 2, and a lone \<open>pad()\<close> ends at bit 8.
\<close>

theorem C1_pad_instruction_at_boundary_skips_a_byte:
  "exec_result (field ''count'' UInt8 None None (pad (new_PayloadSpec BE))) [1, 2]
     = Inr [''count'' \<mapsto> PNum 2]
   \<and> final_position (pad (new_PayloadSpec BE)) [1, 2] = Inr 8
   \<and> PosBuffer_pad (new_PosBuffer [1, 2] None None) = new_PosBuffer [1, 2] None None"
  by (simp add: run_defs type_defs field_def pad_def new_PayloadSpec_def PosBuffer_pad_def
        new_PosBuffer_def
        cong: old.prod.case_cong_weak)

text \<open>
  C2. The guard of \<open>PosBuffer.read\<close> should reject a read whose data type does not fit
  into the rest of the buffer. It does not: with two bytes and the cursor on the last one,
  a 16-bit read passes the guard and reaches the decoder (which fails on its own), while
  \<open>PosBuffer.peek\<close> of the same type at the same byte is rejected by the cursor.
\<close>

theorem C2_read_guard_ignores_the_width:
  "PosBuffer_read ((new_PosBuffer [0xAE, 0xC4] None None)\<lparr>offsetBytes := 1\<rparr>)
      (DataType_of UInt16 16) None = Inl RangeError
   \<and> PosBuffer_read ((new_PosBuffer [0xAE, 0xC4] None None)\<lparr>offsetBytes := 1\<rparr>)
      \<lparr>dt_size = 16, dt_execute = (\<lambda>pb. Inr (PStr ''decoded''))\<rparr> None
       = Inr (PStr ''decoded'', (new_PosBuffer [0xAE, 0xC4] None None)\<lparr>offsetBytes := 3\<rparr>)
   \<and> PosBuffer_peek (new_PosBuffer [0xAE, 0xC4] None None) (DataType_of UInt16 16) 1
       = Inl (Error ''Attempt to peek outside of the buffer'')"
  by (simp add: PosBuffer_read_def PosBuffer_peek_def new_PosBuffer_def DataType_of_def
        type_defs PosBuffer_mode_def PosBuffer_addOffset_def updateOffset_def js_rem_def
        cong: old.prod.case_cong_weak)

text \<open>
  C3. When the branch of a conditional or of a switch is taken, the nested program is
  executed by \<open>exec\<close>, that is by a fresh reader at byte 0 and bit 0, on the slice of the
  buffer from the outer byte offset. The outer bit offset plays no part: whatever it is,
  the instruction leaves the same instruction object, result and stored mapping.
\<close>

theorem C3_nested_program_starts_at_bit_0_of_slice:
  "(p (combinedVars rs) \<longrightarrow>
      execute buf rs (IfInstruction p m is) =
        (case PayloadSpec_exec (m, is) (slice buf (offset_bytes rs) None) of
           Inl e \<Rightarrow> Inl e
         | Inr (subResult, spec') \<Rightarrow>
             Inr (IfInstruction p m (snd spec'), rs\<lparr>result := result rs ++ subResult\<rparr>)))
   \<and> (switch_lookup table (toString (keyFn (combinedVars rs))) = Some spec \<longrightarrow>
      SwitchInstruction_execute keyFn table buf rs =
        (case PayloadSpec_exec spec (slice buf (offset_bytes rs) None) of
           Inl e \<Rightarrow> Inl e
         | Inr (subResult, spec') \<Rightarrow> Inr (rs\<lparr>result := result rs ++ subResult\<rparr>)))
   \<and> state_view (execute buf (rs\<lparr>offset_bits := b\<rparr>) (IfInstruction p m is))
       = state_view (execute buf (rs\<lparr>offset_bits := 0\<rparr>) (IfInstruction p m is))
   \<and> map_sum id (\<lambda>rs'. (result rs', storedVars rs'))
        (SwitchInstruction_execute keyFn table buf (rs\<lparr>offset_bits := b\<rparr>))
       = map_sum id (\<lambda>rs'. (result rs', storedVars rs'))
        (SwitchInstruction_execute keyFn table buf (rs\<lparr>offset_bits := 0\<rparr>))"
  by (cases spec)
     (simp add: IfInstruction_execute_exec SwitchInstruction_execute_def combinedVars_def
           state_view_def del: execute.simps split: sum.splits option.splits)

theorem C3_nested_program_starts_at_bit_0_of_slice_witness:
  "(\<lambda>vs::vars. True) (combinedVars \<lparr>result = [''type'' \<mapsto> PNum 5], storedVars = Map.empty,
        offset_bytes = 0, offset_bits = 3, mode = BE\<rparr>)
   \<and> execute [0xA1, 0xD2]
        \<lparr>result = [''type'' \<mapsto> PNum 5], storedVars = Map.empty,
          offset_bytes = 0, offset_bits = 3, mode = BE\<rparr>
        (IfInstruction (\<lambda>vs. True) BE [Field ''a1'' (Bits 8) None None 0])
      = Inr (IfInstruction (\<lambda>vs. True) BE [Field ''a1'' (Bits 8) None None 8],
             \<lparr>result = [''type'' \<mapsto> PNum 5, ''a1'' \<mapsto> PNum 161], storedVars = Map.empty,
               offset_bytes = 0, offset_bits = 3, mode = BE\<rparr>)
   \<and> switch_lookup [(''128'', (BE, [Field ''one'' UInt8 None None 0])),
                     (''default'', (BE, [Field ''a1'' (Bits 8) None None 0]))]
        (toString ((\<lambda>vs. case vs ''type'' of Some x \<Rightarrow> x | None \<Rightarrow> PUndefined)
           (combinedVars \<lparr>result = [''type'' \<mapsto> PNum 5], storedVars = Map.empty,
              offset_bytes = 0, offset_bits = 3, mode = BE\<rparr>)))
      = Some (BE, [Field ''a1'' (Bits 8) None None 0])
   \<and> SwitchInstruction_execute (\<lambda>vs. case vs ''type'' of Some x \<Rightarrow> x | None \<Rightarrow> PUndefined)
        [(''128'', (BE, [Field ''one'' UInt8 None None 0])),
         (''default'', (BE, [Field ''a1'' (Bits 8) None None 0]))]
        [0xA1, 0xD2]
        \<lparr>result = [''type'' \<mapsto> PNum 5], storedVars = Map.empty,
          offset_bytes = 0, offset_bits = 3, mode = BE\<rparr>
      = Inr \<lparr>result = [''type'' \<mapsto> PNum 5, ''a1'' \<mapsto> PNum 161], storedVars = Map.empty,
               offset_bytes = 0, offset_bits = 3, mode = BE\<rparr>"
  using C3_nested_program_starts_at_bit_0_of_slice [of "\<lambda>vs. True"
      "\<lparr>result = [''type'' \<mapsto> PNum 5], storedVars = Map.empty,
          offset_bytes = 0, offset_bits = 3, mode = BE\<rparr>"
      "[0xA1, 0xD2]" BE "[Field ''a1'' (Bits 8) None None 0]"
      "[(''128'', (BE, [Field ''one'' UInt8 None None 0])),
         (''default'', (BE, [Field ''a1'' (Bits 8) None None 0]))]"
      "\<lambda>vs. case vs ''type'' of Some x \<Rightarrow> x | None \<Rightarrow> PUndefined"
      "(BE, [Field ''a1'' (Bits 8) None None 0])" 3]
  by (simp add: run_defs type_defs switch_lookup_def show_int_def digits.simps slice_def
        SwitchInstruction_execute_def
        cong: old.prod.case_cong_weak)

text \<open>
  C4. A successful execution should not end past the end of the buffer. The reader never
  compares its cursor with the buffer: \<open>skip(5)\<close> on a one-byte buffer succeeds with an
  empty result and the cursor at bit 40, where \<open>PosBuffer.skip\<close> throws. Nor is a
  cursor before the start refused: after a 3-bit field, \<open>skip(-1)\<close> leaves the offsets
  -1 and -5, which is bit -13 and not the sum 3 - 8 of the sizes.
\<close>

theorem C4_skip_past_the_end_succeeds:
  "final_position (skip 5 (new_PayloadSpec BE)) [1] = Inr 40
   \<and> exec_result (skip 5 (new_PayloadSpec BE)) [1] = Inr Map.empty
   \<and> PosBuffer_skip (new_PosBuffer [1] None None) 5
       = Inl (Error ''Attempt to skip outside the buffer'')
   \<and> final_position (skip (- 1) (field ''a'' (Bits 3) None None (new_PayloadSpec BE))) [0xFF]
       = Inr (- 13)"
  by (simp add: run_defs type_defs skip_def field_def new_PayloadSpec_def PosBuffer_skip_def
        new_PosBuffer_def updateOffset_def PosBuffer_addOffset_def
        cong: old.prod.case_cong_weak)

text \<open>
  C5. An \<open>IfInstruction\<close> has size 0 and its \<open>execute\<close> applies the predicate to the
  merge of result and stored mapping. If it holds, the other spec is executed on the slice
  of the buffer from the current byte offset, an error of it is the error of the
  instruction, and otherwise its result is merged into the outer result, its values
  replacing those of equal name; the stored mapping and the offsets are left alone. If it
  does not hold, \<open>execute\<close> changes nothing. The reader's loop then goes on after
  \<open>addOffset(0)\<close>, which is the same cursor whenever the cursor is normalized.
\<close>

theorem C5_if_instruction_in_the_loop:
  "inst_size (IfInstruction p m nested) = 0
   \<and> execute buf rs (IfInstruction p m nested) =
       (if p (result rs ++ storedVars rs) then
          (case PayloadSpec_exec (m, nested) (slice buf (offset_bytes rs) None) of
             Inl e \<Rightarrow> Inl e
           | Inr (subResult, spec') \<Rightarrow>
               Inr (IfInstruction p m (snd spec'),
                    rs\<lparr>result := (\<lambda>k. case subResult k of Some v \<Rightarrow> Some v
                                                           | None \<Rightarrow> result rs k)\<rparr>))
        else Inr (IfInstruction p m nested, rs))
   \<and> read_loop buf rd r s (IfInstruction p m nested # rest) =
       (if p (r ++ s) then
          (case PayloadSpec_exec (m, nested) (slice buf (byteOffset rd) None) of
             Inl e \<Rightarrow> Inl e
           | Inr (subResult, spec') \<Rightarrow>
               processed (IfInstruction p m (snd spec'))
                 (read_loop buf (BufferReader_addOffset rd 0)
                    (\<lambda>k. case subResult k of Some v \<Rightarrow> Some v | None \<Rightarrow> r k) s rest))
        else processed (IfInstruction p m nested)
               (read_loop buf (BufferReader_addOffset rd 0) r s rest))
   \<and> (normalized rd \<longrightarrow> BufferReader_addOffset rd 0 = rd)"
proof (intro conjI impI)
  show "execute buf rs (IfInstruction p m nested) =
       (if p (result rs ++ storedVars rs) then
          (case PayloadSpec_exec (m, nested) (slice buf (offset_bytes rs) None) of
             Inl e \<Rightarrow> Inl e
           | Inr (subResult, spec') \<Rightarrow>
               Inr (IfInstruction p m (snd spec'),
                    rs\<lparr>result := (\<lambda>k. case subResult k of Some v \<Rightarrow> Some v
                                                           | None \<Rightarrow> result rs k)\<rparr>))
        else Inr (IfInstruction p m nested, rs))"
    by (simp add: IfInstruction_execute_exec combinedVars_def map_add_def
             del: execute.simps split: sum.splits)
  show "read_loop buf rd r s (IfInstruction p m nested # rest) =
       (if p (r ++ s) then
          (case PayloadSpec_exec (m, nested) (slice buf (byteOffset rd) None) of
             Inl e \<Rightarrow> Inl e
           | Inr (subResult, spec') \<Rightarrow>
               processed (IfInstruction p m (snd spec'))
                 (read_loop buf (BufferReader_addOffset rd 0)
                    (\<lambda>k. case subResult k of Some v \<Rightarrow> Some v | None \<Rightarrow> r k) s rest))
        else processed (IfInstruction p m nested)
               (read_loop buf (BufferReader_addOffset rd 0) r s rest))"
    by (simp add: IfInstruction_execute_exec combinedVars_def map_add_def
             del: execute.simps split: sum.splits)
  assume "normalized rd"
  then show "BufferReader_addOffset rd 0 = rd" by (rule addOffset_zero)
qed simp

theorem C5_if_instruction_in_the_loop_witness:
  "normalized \<lparr>byteOffset = 1, bitOffset = 0, r_mode = BE\<rparr>
   \<and> BufferReader_addOffset \<lparr>byteOffset = 1, bitOffset = 0, r_mode = BE\<rparr> 0
       = \<lparr>byteOffset = 1, bitOffset = 0, r_mode = BE\<rparr>
   \<and> read_loop [1, 2] \<lparr>byteOffset = 1, bitOffset = 0, r_mode = BE\<rparr>
        [''type'' \<mapsto> PNum 1] Map.empty
        [IfInstruction (\<lambda>vs. vs ''type'' = Some (PNum 1)) BE [Field ''a1'' UInt8 None None 0]]
     = Inr (\<lparr>byteOffset = 1, bitOffset = 0, r_mode = BE\<rparr>,
            [''type'' \<mapsto> PNum 1, ''a1'' \<mapsto> PNum 2], Map.empty,
            [IfInstruction (\<lambda>vs. vs ''type'' = Some (PNum 1)) BE [Field ''a1'' UInt8 None None 8]])
   \<and> read_loop [0, 2] \<lparr>byteOffset = 1, bitOffset = 0, r_mode = BE\<rparr>
        [''type'' \<mapsto> PNum 0] Map.empty
        [IfInstruction (\<lambda>vs. vs ''type'' = Some (PNum 1)) BE [Field ''a1'' UInt8 None None 0]]
     = Inr (\<lparr>byteOffset = 1, bitOffset = 0, r_mode = BE\<rparr>,
            [''type'' \<mapsto> PNum 0], Map.empty,
            [IfInstruction (\<lambda>vs. vs ''type'' = Some (PNum 1)) BE [Field ''a1'' UInt8 None None 0]])"
  using C5_if_instruction_in_the_loop
          [where rd = "\<lparr>byteOffset = 1, bitOffset = 0, r_mode = BE\<rparr>" and buf = "[1, 2]"
             and r = "[''type'' \<mapsto> PNum 1]" and s = Map.empty
             and p = "\<lambda>vs. vs ''type'' = Some (PNum 1)" and m = BE
             and nested = "[Field ''a1'' UInt8 None None 0]" and rest = "[]"]
        C5_if_instruction_in_the_loop
          [where rd = "\<lparr>byteOffset = 1, bitOffset = 0, r_mode = BE\<rparr>" and buf = "[0, 2]"
             and r = "[''type'' \<mapsto> PNum 0]" and s = Map.empty
             and p = "\<lambda>vs. vs ''type'' = Some (PNum 1)" and m = BE
             and nested = "[Field ''a1'' UInt8 None None 0]" and rest = "[]"]
  by (simp add: run_defs type_defs slice_def normalized_def
        cong: old.prod.case_cong_weak)

text \<open>
  C6. An endianness instruction is handled by the loop itself: \<open>execute\<close> is not called,
  the cursor, the result and the stored mapping stay as they are, and the loop goes on in
  the new mode. Every other instruction of a program is executed with the mode of the last
  endianness instruction before it, or with the mode the run started with when there is
  none; instructions after it have no influence on that.
\<close>

theorem C6_endianness_switch_from_here_on:
  "read_loop buf rd r s (EndiannessInstruction m # rest)
     = processed (EndiannessInstruction m) (read_loop buf (rd\<lparr>r_mode := m\<rparr>) r s rest)
   \<and> (\<not> is_endianness i \<longrightarrow> read_loop buf rd r s pre = Inr (rd1, r1, s1, pre') \<longrightarrow>
        read_loop buf rd r s (pre @ i # post)
          = (case execute buf \<lparr>result = r1, storedVars = s1, offset_bytes = byteOffset rd1,
                               offset_bits = bitOffset rd1,
                               mode = active_mode (r_mode rd) pre\<rparr> i of
               Inl e \<Rightarrow> Inl e
             | Inr (i', rs') \<Rightarrow>
                 (case read_loop buf (BufferReader_addOffset rd1 (inst_size i'))
                         (result rs') (storedVars rs') post of
                    Inl e \<Rightarrow> Inl e
                  | Inr (rd2, r2, s2, post') \<Rightarrow> Inr (rd2, r2, s2, pre' @ i' # post'))))"
proof (intro conjI impI)
  assume ne: "\<not> is_endianness i" and pre: "read_loop buf rd r s pre = Inr (rd1, r1, s1, pre')"
  have md: "r_mode rd1 = active_mode (r_mode rd) pre" by (rule read_loop_mode [OF pre])
  show "read_loop buf rd r s (pre @ i # post)
          = (case execute buf \<lparr>result = r1, storedVars = s1, offset_bytes = byteOffset rd1,
                               offset_bits = bitOffset rd1,
                               mode = active_mode (r_mode rd) pre\<rparr> i of
               Inl e \<Rightarrow> Inl e
             | Inr (i', rs') \<Rightarrow>
                 (case read_loop buf (BufferReader_addOffset rd1 (inst_size i'))
                         (result rs') (storedVars rs') post of
                    Inl e \<Rightarrow> Inl e
                  | Inr (rd2, r2, s2, post') \<Rightarrow> Inr (rd2, r2, s2, pre' @ i' # post')))"
    by (simp add: read_loop_append then_loop_def pre read_loop_dispatch [OF ne] md [symmetric]
             processed_def split: sum.splits)
qed simp

theorem C6_endianness_switch_from_here_on_witness:
  "\<not> is_endianness (Field ''countLE'' UInt16 None None 0)
   \<and> read_loop [0xFF, 0x30, 0x30, 0xFF] \<lparr>byteOffset = 0, bitOffset = 0, r_mode = BE\<rparr>
        Map.empty Map.empty [Field ''countBE'' UInt16 None None 0, EndiannessInstruction LE]
     = Inr (\<lparr>byteOffset = 2, bitOffset = 0, r_mode = LE\<rparr>, [''countBE'' \<mapsto> PNum 65328],
            Map.empty, [Field ''countBE'' UInt16 None None 16, EndiannessInstruction LE])
   \<and> active_mode BE [Field ''countBE'' UInt16 None None 0, EndiannessInstruction LE] = LE
   \<and> read_loop [0xFF, 0x30, 0x30, 0xFF] \<lparr>byteOffset = 0, bitOffset = 0, r_mode = BE\<rparr>
        Map.empty Map.empty
        ([Field ''countBE'' UInt16 None None 0, EndiannessInstruction LE]
          @ Field ''countLE'' UInt16 None None 0 # [EndiannessInstruction BE])
     = Inr (\<lparr>byteOffset = 4, bitOffset = 0, r_mode = BE\<rparr>,
            [''countBE'' \<mapsto> PNum 65328, ''countLE'' \<mapsto> PNum 65328], Map.empty,
            [Field ''countBE'' UInt16 None None 16, EndiannessInstruction LE,
             Field ''countLE'' UInt16 None None 16, EndiannessInstruction BE])"
  using C6_endianness_switch_from_here_on
          [of "[0xFF, 0x30, 0x30, 0xFF]" "\<lparr>byteOffset = 0, bitOffset = 0, r_mode = BE\<rparr>"
              Map.empty Map.empty BE "[]" "Field ''countLE'' UInt16 None None 0"
              "[Field ''countBE'' UInt16 None None 0, EndiannessInstruction LE]"
              "\<lparr>byteOffset = 2, bitOffset = 0, r_mode = LE\<rparr>" "[''countBE'' \<mapsto> PNum 65328]"
              Map.empty "[Field ''countBE'' UInt16 None None 16, EndiannessInstruction LE]"
              "[EndiannessInstruction BE]"]
  by (simp add: run_defs type_defs is_endianness_def active_mode_def
        cong: old.prod.case_cong_weak)

text \<open>
  C7. A derive instruction applies its callback to the merge of result and stored mapping
  as they are at that moment, stores the value under its name and has size 0: from a
  normalized cursor the loop goes on with the same cursor and stored mapping. Whatever
  the later instructions of the program do to other keys, as long as none of them assigns
  or deletes the derived name itself, the final result holds under that name the value
  computed from the mappings as they were when the derive instruction ran.
\<close>

theorem C7_derived_value_is_frozen:
  "(normalized rd \<longrightarrow>
      read_loop buf rd r s (DeriveInstruction n cb # post)
        = processed (DeriveInstruction n cb)
            (read_loop buf rd (r(n \<mapsto> cb (r ++ s))) s post))
   \<and> inst_size (DeriveInstruction n cb) = 0
   \<and> (read_loop buf rd r s pre = Inr (rd1, r1, s1, pre') \<longrightarrow>
      read_loop buf rd r s (pre @ DeriveInstruction n cb # post) = Inr (rd2, r2, s2, is2) \<longrightarrow>
      n \<notin> \<Union> (set (map names post)) \<longrightarrow>
      r2 n = Some (cb (r1 ++ s1)))"
proof (intro conjI impI)
  assume pre: "read_loop buf rd r s pre = Inr (rd1, r1, s1, pre')"
    and all: "read_loop buf rd r s (pre @ DeriveInstruction n cb # post) = Inr (rd2, r2, s2, is2)"
    and n: "n \<notin> \<Union> (set (map names post))"
  from all obtain t where
    t: "read_loop buf (BufferReader_addOffset rd1 0) (r1(n \<mapsto> cb (r1 ++ s1))) s1 post
          = Inr (rd2, r2, s2, t)"
    by (auto simp: read_loop_append then_loop_def pre processed_def combinedVars_def
             split: sum.splits)
  from read_loop_untouched [OF t n] show "r2 n = Some (cb (r1 ++ s1))" by simp
qed (simp_all add: combinedVars_def addOffset_zero)

theorem C7_derived_value_is_frozen_witness:
  "read_loop [2, 5] \<lparr>byteOffset = 0, bitOffset = 0, r_mode = BE\<rparr> Map.empty Map.empty
        [Field ''count'' UInt8 None None 0]
     = Inr (\<lparr>byteOffset = 1, bitOffset = 0, r_mode = BE\<rparr>, [''count'' \<mapsto> PNum 2], Map.empty,
            [Field ''count'' UInt8 None None 8])
   \<and> read_loop [2, 5] \<lparr>byteOffset = 0, bitOffset = 0, r_mode = BE\<rparr> Map.empty Map.empty
        ([Field ''count'' UInt8 None None 0]
          @ DeriveInstruction ''doubleCount''
              (\<lambda>vs. case vs ''count'' of Some (PNum c) \<Rightarrow> PNum (c * 2) | _ \<Rightarrow> PNull)
          # [Field ''count'' UInt8 None None 0])
     = Inr (\<lparr>byteOffset = 2, bitOffset = 0, r_mode = BE\<rparr>,
            [''count'' \<mapsto> PNum 2, ''doubleCount'' \<mapsto> PNum 4, ''count'' \<mapsto> PNum 5], Map.empty,
            [Field ''count'' UInt8 None None 8,
             DeriveInstruction ''doubleCount''
              (\<lambda>vs. case vs ''count'' of Some (PNum c) \<Rightarrow> PNum (c * 2) | _ \<Rightarrow> PNull),
             Field ''count'' UInt8 None None 8])
   \<and> normalized \<lparr>byteOffset = 0, bitOffset = 0, r_mode = BE\<rparr>
   \<and> ''doubleCount'' \<notin> \<Union> (set (map names [Field ''count'' UInt8 None None 0]))
   \<and> [''count'' \<mapsto> PNum 2, ''doubleCount'' \<mapsto> PNum 4, ''count'' \<mapsto> PNum 5] ''doubleCount''
       = Some ((\<lambda>vs. case vs ''count'' of Some (PNum c) \<Rightarrow> PNum (c * 2) | _ \<Rightarrow> PNull)
                 ([''count'' \<mapsto> PNum 2] ++ Map.empty))"
  using C7_derived_value_is_frozen
          [of "\<lparr>byteOffset = 0, bitOffset = 0, r_mode = BE\<rparr>" "[2, 5]" Map.empty Map.empty
              "''doubleCount''"
              "\<lambda>vs. case vs ''count'' of Some (PNum c) \<Rightarrow> PNum (c * 2) | _ \<Rightarrow> PNull"
              "[Field ''count'' UInt8 None None 0]" "[Field ''count'' UInt8 None None 0]"]
  by (simp add: run_defs type_defs normalized_def
        cong: old.prod.case_cong_weak)

text \<open>
  C8. Executing a program a second time against the same buffer, with its instruction
  objects as the first execution left them, succeeds with the same result mapping as the
  first execution.
\<close>

theorem C8_second_execution_same_result:
  assumes "PayloadSpec_exec spec buf = Inr (r1, spec1)"
  shows "exec_result spec1 buf = Inr r1"
proof -
  from assms obtain rd s is1 where
    l: "read_loop buf \<lparr>byteOffset = 0, bitOffset = 0, r_mode = fst spec\<rparr>
          Map.empty Map.empty (snd spec) = Inr (rd, r1, s, is1)"
    and spec1: "spec1 = (fst spec, is1)"
    by (auto simp: PayloadSpec_exec_def BufferReader_read_def split: sum.splits)
  have "map as_built is1 = map as_built (snd spec)"
    by (rule read_loop_as_built [OF l])
  from read_loop_same_shape [OF this, of buf
         "\<lparr>byteOffset = 0, bitOffset = 0, r_mode = fst spec\<rparr>" Map.empty Map.empty]
  show ?thesis
    by (cases rule: loop_view_eq_cases)
       (simp_all add: l spec1 exec_result_def PayloadSpec_exec_def BufferReader_read_def)
qed

theorem C8_second_execution_same_result_witness:
  "PayloadSpec_exec
     (BE, [Field ''enabled'' Bool_type None None 0, PadInstruction 0,
           Field ''count'' UInt8 None None 0]) [0x80, 0x02]
   = Inr ([''enabled'' \<mapsto> PBool True, ''count'' \<mapsto> PNum 2],
          (BE, [Field ''enabled'' Bool_type None None 1, PadInstruction 7,
                Field ''count'' UInt8 None None 8]))
   \<and> exec_result
       (BE, [Field ''enabled'' Bool_type None None 1, PadInstruction 7,
             Field ''count'' UInt8 None None 8]) [0x80, 0x02]
     = Inr [''enabled'' \<mapsto> PBool True, ''count'' \<mapsto> PNum 2]"
proof -
  have h: "PayloadSpec_exec
     (BE, [Field ''enabled'' Bool_type None None 0, PadInstruction 0,
           Field ''count'' UInt8 None None 0]) [0x80, 0x02]
   = Inr ([''enabled'' \<mapsto> PBool True, ''count'' \<mapsto> PNum 2],
          (BE, [Field ''enabled'' Bool_type None None 1, PadInstruction 7,
                Field ''count'' UInt8 None None 8]))"
    by (simp add: run_defs type_defs
        cong: old.prod.case_cong_weak)
  from C8_second_execution_same_result [OF h] h show ?thesis by simp
qed

text \<open>
  C9. A field with an expected value whose decoded value, after the \<open>then\<close> function,
  differs from it ends the run with the parsing error
  \<open>Expected <name> to be <expected> but was <actual>\<close>, whatever the expected value is
  (0, false and the empty string included) and whatever instructions follow.
\<close>

theorem C9_shouldBe_mismatch_message:
  "read_loop buf rd r s pre = Inr (rd1, r1, s1, pre') \<Longrightarrow>
   ty buf (byteOffset rd1) (bitOffset rd1) (r_mode rd1) = Inr (v, sz') \<Longrightarrow>
   (case thn of None \<Rightarrow> v | Some f \<Rightarrow> f v) = actual \<Longrightarrow>
   actual \<noteq> expected \<Longrightarrow>
   read_loop buf rd r s (pre @ Field n ty thn (Some expected) sz # post)
     = Inl (ParsingError (''Expected '' @ n @ '' to be '' @ toString expected
                            @ '' but was '' @ toString actual))"
  by (simp add: read_loop_append then_loop_def field_value_def shouldBe_message_def)

theorem C9_shouldBe_mismatch_message_witness:
  "read_loop [1] \<lparr>byteOffset = 0, bitOffset = 0, r_mode = BE\<rparr> Map.empty Map.empty []
     = Inr (\<lparr>byteOffset = 0, bitOffset = 0, r_mode = BE\<rparr>, Map.empty, Map.empty, [])
   \<and> UInt8 [1] 0 0 BE = Inr (PNum 1, 8)
   \<and> PNum 1 \<noteq> PNum 0
   \<and> read_loop [1] \<lparr>byteOffset = 0, bitOffset = 0, r_mode = BE\<rparr> Map.empty Map.empty
        ([] @ Field ''frequency'' UInt8 None (Some (PNum 0)) 0 # [])
       = Inl (ParsingError ''Expected frequency to be 0 but was 1'')
   \<and> exec_result (field ''frequency'' UInt8 None (Some (PNum 0)) (new_PayloadSpec BE)) [1]
       = Inl (ParsingError ''Expected frequency to be 0 but was 1'')
   \<and> Bool_type [0x80] 0 0 BE = Inr (PBool True, 1)
   \<and> PBool True \<noteq> PBool False
   \<and> read_loop [0x80] \<lparr>byteOffset = 0, bitOffset = 0, r_mode = BE\<rparr> Map.empty Map.empty
        ([] @ Field ''enabled'' Bool_type None (Some (PBool False)) 0 # [])
       = Inl (ParsingError ''Expected enabled to be false but was true'')"
  using C9_shouldBe_mismatch_message
          [of "[1]" "\<lparr>byteOffset = 0, bitOffset = 0, r_mode = BE\<rparr>" Map.empty Map.empty "[]"
              "\<lparr>byteOffset = 0, bitOffset = 0, r_mode = BE\<rparr>" Map.empty Map.empty "[]"
              UInt8 "PNum 1" 8 None "PNum 1" "PNum 0" "''frequency''" 0 "[]"]
        C9_shouldBe_mismatch_message
          [of "[0x80]" "\<lparr>byteOffset = 0, bitOffset = 0, r_mode = BE\<rparr>" Map.empty Map.empty "[]"
              "\<lparr>byteOffset = 0, bitOffset = 0, r_mode = BE\<rparr>" Map.empty Map.empty "[]"
              Bool_type "PBool True" 1 None "PBool True" "PBool False" "''enabled''" 0 "[]"]
  by (simp add: run_defs type_defs show_int_def digits.simps shouldBe_message_def field_def
        new_PayloadSpec_def
        cong: old.prod.case_cong_weak)

text \<open>
  C10. Where the stored mapping has a key, the merged mapping has the stored value under
  it, whatever the result mapping holds there. It is this merged mapping that a derive
  callback and an if predicate are applied to: a callback that returns the entry of the
  key derives the stored value, and a predicate that denies it is false.
\<close>

theorem C10_stored_shadows_result:
  "storedVars rs k = Some v \<Longrightarrow>
     combinedVars rs k = Some v
   \<and> execute buf rs (DeriveInstruction n cb)
       = Inr (DeriveInstruction n cb, rs\<lparr>result := (result rs)(n \<mapsto> cb (combinedVars rs))\<rparr>)
   \<and> execute buf rs (DeriveInstruction n (\<lambda>vs. case vs k of Some x \<Rightarrow> x | None \<Rightarrow> PUndefined))
       = Inr (DeriveInstruction n (\<lambda>vs. case vs k of Some x \<Rightarrow> x | None \<Rightarrow> PUndefined),
              rs\<lparr>result := (result rs)(n \<mapsto> v)\<rparr>)
   \<and> execute buf rs (IfInstruction p m is)
       = (if p (combinedVars rs) then
            (case PayloadSpec_exec (m, is) (slice buf (offset_bytes rs) None) of
               Inl e \<Rightarrow> Inl e
             | Inr (subResult, spec') \<Rightarrow>
                 Inr (IfInstruction p m (snd spec'), rs\<lparr>result := result rs ++ subResult\<rparr>))
          else Inr (IfInstruction p m is, rs))
   \<and> execute buf rs (IfInstruction (\<lambda>vs. vs k \<noteq> Some v) m is)
       = Inr (IfInstruction (\<lambda>vs. vs k \<noteq> Some v) m is, rs)"
  by (simp add: IfInstruction_execute_exec del: execute.simps) (simp add: combinedVars_def)

theorem C10_stored_shadows_result_witness:
  "storedVars \<lparr>result = [''a'' \<mapsto> PNum 1], storedVars = [''a'' \<mapsto> PNum 2],
                offset_bytes = 0, offset_bits = 0, mode = BE\<rparr> ''a'' = Some (PNum 2)
   \<and> result \<lparr>result = [''a'' \<mapsto> PNum 1], storedVars = [''a'' \<mapsto> PNum 2],
                offset_bytes = 0, offset_bits = 0, mode = BE\<rparr> ''a'' = Some (PNum 1)
   \<and> combinedVars \<lparr>result = [''a'' \<mapsto> PNum 1], storedVars = [''a'' \<mapsto> PNum 2],
                offset_bytes = 0, offset_bits = 0, mode = BE\<rparr> ''a'' = Some (PNum 2)
   \<and> execute [] \<lparr>result = [''a'' \<mapsto> PNum 1], storedVars = [''a'' \<mapsto> PNum 2],
                offset_bytes = 0, offset_bits = 0, mode = BE\<rparr>
        (DeriveInstruction ''d'' (\<lambda>vs. case vs ''a'' of Some x \<Rightarrow> x | None \<Rightarrow> PUndefined))
       = Inr (DeriveInstruction ''d'' (\<lambda>vs. case vs ''a'' of Some x \<Rightarrow> x | None \<Rightarrow> PUndefined),
              \<lparr>result = [''a'' \<mapsto> PNum 1, ''d'' \<mapsto> PNum 2], storedVars = [''a'' \<mapsto> PNum 2],
                offset_bytes = 0, offset_bits = 0, mode = BE\<rparr>)"
  using C10_stored_shadows_result
          [of "\<lparr>result = [''a'' \<mapsto> PNum 1], storedVars = [''a'' \<mapsto> PNum 2],
                offset_bytes = 0, offset_bits = 0, mode = BE\<rparr>" "''a''" "PNum 2" "[]" "''d''"]
  by (simp add: combinedVars_def)

end
